theory Spec2Isabelle
  imports Complex_Main "HOL-Library.Sublist" "HOL-Library.Monad_Syntax"
begin

section \<open>Numeric primitives\<close>

text \<open>
  The arrays of the source hold 64-bit floats. The model computes in the real numbers:
  rounding, overflow and underflow are not modelled. What numpy answers with an
  infinity or a NaN (division by zero, the logarithm of a non-positive number, the
  square root of a negative number, a zero or negative base under a power that has no
  finite real value) and what Python answers with an exception is the value \<open>None\<close>;
  a finite result \<open>x\<close> is \<open>Some x\<close>. A computation is \<open>None\<close> as soon as one of
  its steps is. Array operations are elementwise, so the functions below are stated on
  one element; sums run over lists.
\<close>

definition FLOAT_EPS :: real where
  \<comment> \<open>\<open>np.finfo(float).eps\<close>\<close>
  "FLOAT_EPS = 1 / 2 ^ 52"

definition np_clip :: "real \<Rightarrow> real \<Rightarrow> real \<Rightarrow> real" where
  "np_clip x lo hi = min (max x lo) hi"

definition np_clip_inf :: "real \<Rightarrow> real \<Rightarrow> real" where
  \<comment> \<open>\<open>np.clip(x, lo, np.inf)\<close>\<close>
  "np_clip_inf x lo = max x lo"

definition np_div :: "real \<Rightarrow> real \<Rightarrow> real option" where
  "np_div a b = (if b = 0 then None else Some (a / b))"

definition np_log :: "real \<Rightarrow> real option" where
  "np_log x = (if 0 < x then Some (ln x) else None)"

definition np_sqrt :: "real \<Rightarrow> real option" where
  "np_sqrt x = (if 0 \<le> x then Some (sqrt x) else None)"

definition np_power :: "real \<Rightarrow> real \<Rightarrow> real option" where
  \<comment> \<open>\<open>np.power(x, k)\<close> on floats: a positive base takes any exponent; zero to a
      negative exponent is infinite; a negative base takes whole exponents only.\<close>
  "np_power x k =
     (if 0 < x then Some (x powr k)
      else if x = 0 then (if 0 < k then Some 0 else if k = 0 then Some 1 else None)
      else if k = of_int \<lfloor>k\<rfloor> then Some (x powi \<lfloor>k\<rfloor>)
      else None)"

definition np_sign :: "real \<Rightarrow> real" where
  "np_sign x = sgn x"

fun np_sum :: "real option list \<Rightarrow> real option" where
  \<comment> \<open>the sum of an array is finite when every element is\<close>
  "np_sum [] = Some 0"
| "np_sum (x # xs) = do { a \<leftarrow> x; s \<leftarrow> np_sum xs; Some (a + s) }"

section \<open>links.py\<close>

subsection \<open>The classes and their instances\<close>

datatype link_class =
    L_Link | L_Logit | L_logit
  | L_Power | L_inverse_power | L_sqrt | L_inverse_squared | L_identity
  | L_Log | L_log
  | L_CDFLink | L_probit | L_cauchy
  | L_CLogLog | L_cloglog
  | L_NegativeBinomial | L_nbinom

fun base :: "link_class \<Rightarrow> link_class option" where
  \<comment> \<open>the base class each \<open>class\<close> statement names; \<open>None\<close> is \<open>object\<close>\<close>
  "base L_Link = None"
| "base L_Logit = Some L_Link"
| "base L_logit = Some L_Logit"
| "base L_Power = Some L_Link"
| "base L_inverse_power = Some L_Power"
| "base L_sqrt = Some L_Power"
| "base L_inverse_squared = Some L_Power"
| "base L_identity = Some L_Power"
| "base L_Log = Some L_Link"
| "base L_log = Some L_Log"
| "base L_CDFLink = Some L_Logit"
| "base L_probit = Some L_CDFLink"
| "base L_cauchy = Some L_CDFLink"
| "base L_CLogLog = Some L_Logit"
| "base L_cloglog = Some L_CLogLog"
| "base L_NegativeBinomial = None"
| "base L_nbinom = Some L_NegativeBinomial"

fun ancestors :: "nat \<Rightarrow> link_class \<Rightarrow> link_class list" where
  "ancestors 0 c = [c]"
| "ancestors (Suc k) c = (case base c of None \<Rightarrow> [c] | Some b \<Rightarrow> c # ancestors k b)"

definition mro :: "link_class \<Rightarrow> link_class list" where
  \<comment> \<open>the class and its bases; no chain of \<open>base\<close> is longer than three steps\<close>
  "mro c = ancestors 3 c"

fun class_name :: "link_class \<Rightarrow> string" where
  "class_name L_Link = ''Link''"
| "class_name L_Logit = ''Logit''"
| "class_name L_logit = ''logit''"
| "class_name L_Power = ''Power''"
| "class_name L_inverse_power = ''inverse_power''"
| "class_name L_sqrt = ''sqrt''"
| "class_name L_inverse_squared = ''inverse_squared''"
| "class_name L_identity = ''identity''"
| "class_name L_Log = ''Log''"
| "class_name L_log = ''log''"
| "class_name L_CDFLink = ''CDFLink''"
| "class_name L_probit = ''probit''"
| "class_name L_cauchy = ''cauchy''"
| "class_name L_CLogLog = ''CLogLog''"
| "class_name L_cloglog = ''cloglog''"
| "class_name L_NegativeBinomial = ''NegativeBinomial''"
| "class_name L_nbinom = ''nbinom''"

text \<open>
  A \<open>scipy.stats\<close> distribution, as far as \<open>CDFLink\<close> uses it. The library is not part
  of the repository: the two distributions the links name are parameters.
\<close>

record dist =
  cdf :: "real \<Rightarrow> real"
  ppf :: "real \<Rightarrow> real"
  pdf :: "real \<Rightarrow> real"

record scipy_stats =
  norm_dbn :: dist
  cauchy_dbn :: dist

datatype attrs = NoAttrs | PowerAttrs real | DbnAttrs dist | AlphaAttrs real

text \<open>
  An instance: its class, the attributes \<open>__init__\<close> stored, and its address, which
  is all that the default \<open>str\<close> of an object shows beyond the class.
\<close>

record link =
  cls :: link_class
  attrs :: attrs
  addr :: string

definition isinstance :: "link \<Rightarrow> link_class \<Rightarrow> bool" where
  "isinstance l c = (c \<in> set (mro (cls l)))"

fun init_attrs :: "scipy_stats \<Rightarrow> link_class \<Rightarrow> attrs" where
  \<comment> \<open>what \<open>__init__\<close> stores when the class is called with no argument\<close>
  "init_attrs S L_Power = PowerAttrs 1"
| "init_attrs S L_inverse_power = PowerAttrs (- 1)"
| "init_attrs S L_sqrt = PowerAttrs (1 / 2)"
| "init_attrs S L_inverse_squared = PowerAttrs (- 2)"
| "init_attrs S L_identity = PowerAttrs 1"
| "init_attrs S L_CDFLink = DbnAttrs (norm_dbn S)"
| "init_attrs S L_probit = DbnAttrs (norm_dbn S)"
| "init_attrs S L_cauchy = DbnAttrs (cauchy_dbn S)"
| "init_attrs S L_NegativeBinomial = AlphaAttrs 1"
| "init_attrs S L_nbinom = AlphaAttrs 1"
| "init_attrs S _ = NoAttrs"

definition new_link :: "scipy_stats \<Rightarrow> string \<Rightarrow> link_class \<Rightarrow> link" where
  \<comment> \<open>\<open>link()\<close>: a new instance of the class, at address \<open>a\<close>\<close>
  "new_link S a c = \<lparr>cls = c, attrs = init_attrs S c, addr = a\<rparr>"

subsection \<open>Logit\<close>

definition Logit_clean :: "real \<Rightarrow> real" where
  "Logit_clean p = np_clip p FLOAT_EPS (1 - FLOAT_EPS)"

definition Logit_call :: "real \<Rightarrow> real option" where
  "Logit_call p0 = (let p = Logit_clean p0 in do { q \<leftarrow> np_div p (1 - p); np_log q })"

definition Logit_inverse :: "real \<Rightarrow> real option" where
  "Logit_inverse z = (let t = exp (- z) in np_div 1 (1 + t))"

definition Logit_deriv :: "real \<Rightarrow> real option" where
  "Logit_deriv p0 = (let p = Logit_clean p0 in np_div 1 (p * (1 - p)))"

definition Logit_inverse_deriv :: "real \<Rightarrow> real option" where
  "Logit_inverse_deriv z = (let t = exp z in np_div t ((1 + t) ^ 2))"

subsection \<open>Power\<close>

text \<open>The attribute \<open>self.power\<close> is the argument \<open>pw\<close>.\<close>

definition Power_call :: "real \<Rightarrow> real \<Rightarrow> real option" where
  "Power_call pw p = np_power p pw"

definition Power_inverse :: "real \<Rightarrow> real \<Rightarrow> real option" where
  "Power_inverse pw z = do { e \<leftarrow> np_div 1 pw; np_power z e }"

definition Power_deriv :: "real \<Rightarrow> real \<Rightarrow> real option" where
  "Power_deriv pw p = do { q \<leftarrow> np_power p (pw - 1); Some (pw * q) }"

definition Power_inverse_deriv :: "real \<Rightarrow> real \<Rightarrow> real option" where
  "Power_inverse_deriv pw z =
     do { e \<leftarrow> np_div (1 - pw) pw; q \<leftarrow> np_power z e; np_div q pw }"

subsection \<open>Log\<close>

definition Log_clean :: "real \<Rightarrow> real" where
  "Log_clean x = np_clip_inf x FLOAT_EPS"

definition Log_call :: "real \<Rightarrow> real option" where
  "Log_call p = (let x = Log_clean p in np_log x)"

definition Log_inverse :: "real \<Rightarrow> real option" where
  "Log_inverse z = Some (exp z)"

definition Log_deriv :: "real \<Rightarrow> real option" where
  "Log_deriv p0 = (let p = Log_clean p0 in np_div 1 p)"

definition Log_inverse_deriv :: "real \<Rightarrow> real option" where
  "Log_inverse_deriv z = Some (exp z)"

subsection \<open>CDFLink\<close>

definition CDFLink_call :: "dist \<Rightarrow> real \<Rightarrow> real option" where
  "CDFLink_call dbn p0 = (let p = Logit_clean p0 in Some (ppf dbn p))"

definition CDFLink_inverse :: "dist \<Rightarrow> real \<Rightarrow> real option" where
  "CDFLink_inverse dbn z = Some (cdf dbn z)"

definition CDFLink_deriv :: "dist \<Rightarrow> real \<Rightarrow> real option" where
  "CDFLink_deriv dbn p0 = (let p = Logit_clean p0 in np_div 1 (pdf dbn (ppf dbn p)))"

definition CDFLink_inverse_deriv :: "dist \<Rightarrow> real \<Rightarrow> real option" where
  "CDFLink_inverse_deriv dbn z =
     do { p \<leftarrow> CDFLink_inverse dbn z; d \<leftarrow> CDFLink_deriv dbn p; np_div 1 d }"

subsection \<open>CLogLog\<close>

definition CLogLog_call :: "real \<Rightarrow> real option" where
  "CLogLog_call p0 = (let p = Logit_clean p0 in do { a \<leftarrow> np_log (1 - p); np_log (- a) })"

definition CLogLog_inverse :: "real \<Rightarrow> real option" where
  "CLogLog_inverse z = Some (1 - exp (- exp z))"

definition CLogLog_deriv :: "real \<Rightarrow> real option" where
  "CLogLog_deriv p0 =
     (let p = Logit_clean p0 in do { a \<leftarrow> np_log (1 - p); np_div 1 ((p - 1) * a) })"

definition CLogLog_inverse_deriv :: "real \<Rightarrow> real option" where
  "CLogLog_inverse_deriv z = Some (exp (z - exp z))"

subsection \<open>NegativeBinomial\<close>

definition NegativeBinomial_clean :: "real \<Rightarrow> real" where
  "NegativeBinomial_clean x = np_clip_inf x FLOAT_EPS"

definition NegativeBinomial_call :: "real \<Rightarrow> real \<Rightarrow> real option" where
  "NegativeBinomial_call alpha p0 =
     (let p = NegativeBinomial_clean p0
      in do { a \<leftarrow> np_div 1 alpha; q \<leftarrow> np_div p (p + a); np_log q })"

definition NegativeBinomial_inverse :: "real \<Rightarrow> real \<Rightarrow> real option" where
  "NegativeBinomial_inverse alpha z = np_div (- 1) (alpha * (1 - exp (- z)))"

definition NegativeBinomial_deriv :: "real \<Rightarrow> real \<Rightarrow> real option" where
  "NegativeBinomial_deriv alpha p = np_div 1 (p + alpha * p ^ 2)"

definition NegativeBinomial_inverse_deriv :: "real \<Rightarrow> real \<Rightarrow> real option" where
  "NegativeBinomial_inverse_deriv alpha z = (let t = exp z in np_div t (alpha * (1 - t) ^ 2))"

subsection \<open>Method lookup\<close>

text \<open>
  A call of a method on an instance runs the definition of the nearest class in the
  instance's chain of bases. The placeholders of \<open>Link\<close> return the class
  \<open>NotImplementedError\<close>, which is no number: \<open>None\<close>. An attribute the instance
  does not have raises: \<open>None\<close>.
\<close>

definition link_call :: "link \<Rightarrow> real \<Rightarrow> real option" where
  "link_call l p =
     (if isinstance l L_CDFLink then (case attrs l of DbnAttrs d \<Rightarrow> CDFLink_call d p | _ \<Rightarrow> None)
      else if isinstance l L_CLogLog then CLogLog_call p
      else if isinstance l L_Logit then Logit_call p
      else if isinstance l L_Power then (case attrs l of PowerAttrs k \<Rightarrow> Power_call k p | _ \<Rightarrow> None)
      else if isinstance l L_Log then Log_call p
      else if isinstance l L_NegativeBinomial
        then (case attrs l of AlphaAttrs a \<Rightarrow> NegativeBinomial_call a p | _ \<Rightarrow> None)
      else None)"

definition link_inverse :: "link \<Rightarrow> real \<Rightarrow> real option" where
  "link_inverse l z =
     (if isinstance l L_CDFLink then (case attrs l of DbnAttrs d \<Rightarrow> CDFLink_inverse d z | _ \<Rightarrow> None)
      else if isinstance l L_CLogLog then CLogLog_inverse z
      else if isinstance l L_Logit then Logit_inverse z
      else if isinstance l L_Power then (case attrs l of PowerAttrs k \<Rightarrow> Power_inverse k z | _ \<Rightarrow> None)
      else if isinstance l L_Log then Log_inverse z
      else if isinstance l L_NegativeBinomial
        then (case attrs l of AlphaAttrs a \<Rightarrow> NegativeBinomial_inverse a z | _ \<Rightarrow> None)
      else None)"

definition link_deriv :: "link \<Rightarrow> real \<Rightarrow> real option" where
  "link_deriv l p =
     (if isinstance l L_CDFLink then (case attrs l of DbnAttrs d \<Rightarrow> CDFLink_deriv d p | _ \<Rightarrow> None)
      else if isinstance l L_CLogLog then CLogLog_deriv p
      else if isinstance l L_Logit then Logit_deriv p
      else if isinstance l L_Power then (case attrs l of PowerAttrs k \<Rightarrow> Power_deriv k p | _ \<Rightarrow> None)
      else if isinstance l L_Log then Log_deriv p
      else if isinstance l L_NegativeBinomial
        then (case attrs l of AlphaAttrs a \<Rightarrow> NegativeBinomial_deriv a p | _ \<Rightarrow> None)
      else None)"

definition Link_inverse_deriv :: "link \<Rightarrow> real \<Rightarrow> real option" where
  \<comment> \<open>the reference implementation of the base class: \<open>1 / self.deriv(self.inverse(z))\<close>\<close>
  "Link_inverse_deriv l z = do { p \<leftarrow> link_inverse l z; d \<leftarrow> link_deriv l p; np_div 1 d }"

definition link_inverse_deriv :: "link \<Rightarrow> real \<Rightarrow> real option" where
  "link_inverse_deriv l z =
     (if isinstance l L_CDFLink
        then (case attrs l of DbnAttrs d \<Rightarrow> CDFLink_inverse_deriv d z | _ \<Rightarrow> None)
      else if isinstance l L_CLogLog then CLogLog_inverse_deriv z
      else if isinstance l L_Logit then Logit_inverse_deriv z
      else if isinstance l L_Power
        then (case attrs l of PowerAttrs k \<Rightarrow> Power_inverse_deriv k z | _ \<Rightarrow> None)
      else if isinstance l L_Log then Log_inverse_deriv z
      else if isinstance l L_NegativeBinomial
        then (case attrs l of AlphaAttrs a \<Rightarrow> NegativeBinomial_inverse_deriv a z | _ \<Rightarrow> None)
      else Link_inverse_deriv l z)"

section \<open>varfuncs.py\<close>

datatype varfunc =
    V_VarianceFunction
  | V_Power real
  | V_Binomial real
  | V_NegativeBinomial real

definition V_Binomial_clean_quotient :: "real \<Rightarrow> real \<Rightarrow> real option" where
  \<comment> \<open>\<open>self._clean(mu / self.n)\<close> of the Binomial variance function. With \<open>n = 0\<close> the
      quotient is an infinity of the sign of \<open>mu\<close>, which \<open>np.clip\<close> brings to the
      bound on its side, or the NaN \<open>0 / 0\<close>, which \<open>np.clip\<close> keeps.\<close>
  "V_Binomial_clean_quotient mu n =
     (if n \<noteq> 0 then Some (np_clip (mu / n) FLOAT_EPS (1 - FLOAT_EPS))
      else if 0 < mu then Some (1 - FLOAT_EPS)
      else if mu < 0 then Some FLOAT_EPS
      else None)"

definition V_call :: "varfunc \<Rightarrow> real \<Rightarrow> real option" where
  \<comment> \<open>\<open>__call__\<close> of each variance function; the constructor's argument is
      \<open>self.power\<close>, \<open>self.n\<close> or \<open>self.alpha\<close>\<close>
  "V_call v mu =
     (case v of
        V_VarianceFunction \<Rightarrow> Some 1
      | V_Power pw \<Rightarrow> np_power \<bar>mu\<bar> pw
      | V_Binomial n \<Rightarrow>
          do { p \<leftarrow> V_Binomial_clean_quotient mu n;
               Some (p * (1 - p) * n) }
      | V_NegativeBinomial alpha \<Rightarrow>
          (let p = np_clip_inf mu FLOAT_EPS in Some (p + alpha * p ^ 2)))"

definition V_constant :: varfunc where "V_constant = V_VarianceFunction"
definition V_mu :: varfunc where "V_mu = V_Power 1"
definition V_mu_squared :: varfunc where "V_mu_squared = V_Power 2"
definition V_mu_cubed :: varfunc where "V_mu_cubed = V_Power 3"
definition V_binary :: varfunc where "V_binary = V_Binomial 1"
definition V_nbinom :: varfunc where "V_nbinom = V_NegativeBinomial 1"

section \<open>family.py\<close>

subsection \<open>Families and the link property\<close>

datatype family_kind = Poisson | QuasiPoisson | Gaussian | Gamma | Binomial

fun links :: "family_kind \<Rightarrow> link_class list" where
  "links Poisson = [L_log, L_identity, L_sqrt]"
| "links QuasiPoisson = [L_log, L_identity, L_sqrt]"
| "links Gaussian = [L_log, L_identity, L_inverse_power]"
| "links Gamma = [L_log, L_identity, L_inverse_power]"
| "links Binomial = [L_logit, L_probit, L_cauchy, L_log, L_cloglog, L_identity]"

datatype nval = Scalar real | Array "real list"

text \<open>
  A family instance. \<open>p_link\<close> is the attribute \<open>_link\<close> behind the \<open>link\<close>
  property, \<open>None\<close> until the first assignment; \<open>n\<close> is \<open>None\<close> in the families that
  have no such attribute.
\<close>

record family =
  kind :: family_kind
  p_link :: "link option"
  variance :: varfunc
  n :: "nval option"

datatype error = TypeError string | ValueError string

fun join :: "string \<Rightarrow> string list \<Rightarrow> string" where
  "join sep [] = []"
| "join sep [x] = x"
| "join sep (x # y # ys) = x @ sep @ join sep (y # ys)"

definition repr_class :: "link_class \<Rightarrow> string" where
  "repr_class c = ''<class '' @ [CHR 0x27] @ ''spglm.links.'' @ class_name c @ [CHR 0x27] @ ''>''"

definition repr_links :: "link_class list \<Rightarrow> string" where
  \<comment> \<open>\<open>repr\<close> of a list of classes\<close>
  "repr_links cs = ''['' @ join '', '' (map repr_class cs) @ '']''"

definition str_link :: "link \<Rightarrow> string" where
  \<comment> \<open>\<open>str\<close> of an instance of a class that defines neither \<open>__str__\<close> nor \<open>__repr__\<close>\<close>
  "str_link l = ''<spglm.links.'' @ class_name (cls l) @ '' object at 0x'' @ addr l @ ''>''"

definition errmsg :: "link_class list \<Rightarrow> link \<Rightarrow> string" where
  \<comment> \<open>\<open>"Invalid link for family, should be in %s. (got %s)" % (repr(self.links), link)\<close>\<close>
  "errmsg cs l =
     ''Invalid link for family, should be in '' @ repr_links cs @ ''. (got '' @ str_link l @ '')''"

definition py_max :: "bool list \<Rightarrow> error + bool" where
  \<comment> \<open>\<open>max\<close> of a list of booleans\<close>
  "py_max bs = (if bs = [] then Inl (ValueError ''max() arg is an empty sequence'')
                else Inr (list_ex (\<lambda>b. b) bs))"

definition setlink :: "family \<Rightarrow> link \<Rightarrow> family \<times> error option" where
  \<comment> \<open>\<open>_setlink\<close>: the family after the call, and the exception raised, if any. The
      class attribute \<open>links\<close> exists in every family, so \<open>hasattr\<close> holds; the first
      value given to \<open>validlink\<close> is overwritten before it is read.\<close>
  "setlink self l =
     (let self = self\<lparr>p_link := Some l\<rparr>
      in if \<not> isinstance l L_Link
           then (self, Some (TypeError ''The input should be a valid Link object.''))
         else (case py_max (map (isinstance l) (links (kind self))) of
                 Inl e \<Rightarrow> (self, Some e)
               | Inr validlink \<Rightarrow>
                   if \<not> validlink then (self, Some (ValueError (errmsg (links (kind self)) l)))
                   else (self, None)))"

definition getlink :: "family \<Rightarrow> link option" where
  "getlink self = p_link self"

fun default_link :: "family_kind \<Rightarrow> link_class" where
  "default_link Poisson = L_log"
| "default_link QuasiPoisson = L_log"
| "default_link Gaussian = L_identity"
| "default_link Gamma = L_inverse_power"
| "default_link Binomial = L_logit"

fun new_family :: "family_kind \<Rightarrow> family" where
  \<comment> \<open>the instance as \<open>__init__\<close> has it before it assigns \<open>self.link\<close>\<close>
  "new_family Poisson = \<lparr>kind = Poisson, p_link = None, variance = V_mu, n = None\<rparr>"
| "new_family QuasiPoisson = \<lparr>kind = QuasiPoisson, p_link = None, variance = V_mu, n = None\<rparr>"
| "new_family Gaussian = \<lparr>kind = Gaussian, p_link = None, variance = V_constant, n = None\<rparr>"
| "new_family Gamma = \<lparr>kind = Gamma, p_link = None, variance = V_mu_squared, n = None\<rparr>"
| "new_family Binomial =
     \<lparr>kind = Binomial, p_link = None, variance = V_Binomial 1, n = Some (Scalar 1)\<rparr>"

definition init :: "scipy_stats \<Rightarrow> string \<Rightarrow> family_kind \<Rightarrow> link_class \<Rightarrow> error + family" where
  \<comment> \<open>\<open>__init__(self, link)\<close>: \<open>self.link = link()\<close>; an exception leaves no instance\<close>
  "init S a k c =
     (case setlink (new_family k) (new_link S a c) of
        (self, None) \<Rightarrow> Inr self
      | (self, Some e) \<Rightarrow> Inl e)"

definition weights :: "family \<Rightarrow> real \<Rightarrow> real option" where
  \<comment> \<open>\<open>1.0 / (self.link.deriv(mu) ** 2 * self.variance(mu))\<close>\<close>
  "weights self mu =
     (case getlink self of
        None \<Rightarrow> None
      | Some l \<Rightarrow> do { d \<leftarrow> link_deriv l mu; v \<leftarrow> V_call (variance self) mu; np_div 1 (d ^ 2 * v) })"

definition fitted :: "family \<Rightarrow> real \<Rightarrow> real option" where
  "fitted self lin_pred = (case getlink self of None \<Rightarrow> None | Some l \<Rightarrow> link_inverse l lin_pred)"

definition predict :: "family \<Rightarrow> real \<Rightarrow> real option" where
  "predict self mu = (case getlink self of None \<Rightarrow> None | Some l \<Rightarrow> link_call l mu)"

subsection \<open>Observations\<close>

text \<open>
  The methods below take arrays \<open>endog\<close>, \<open>mu\<close> and \<open>freq_weights\<close>. After numpy's
  broadcasting they have one shape; they are given here row by row, an observation
  being the triple \<open>(endog, mu, freq_weights)\<close> of one row.
\<close>

type_synonym obs = "real \<times> real \<times> real"

subsection \<open>Poisson and QuasiPoisson\<close>

definition Poisson_clean :: "real \<Rightarrow> real" where
  "Poisson_clean x = np_clip_inf x FLOAT_EPS"

definition Poisson_resid_dev :: "real \<Rightarrow> real \<Rightarrow> real \<Rightarrow> real option" where
  "Poisson_resid_dev endog mu scale =
     do { q \<leftarrow> np_div endog mu;
          let endog_mu = Poisson_clean q;
          l \<leftarrow> np_log endog_mu;
          r \<leftarrow> np_sqrt (2 * (endog * l - (endog - mu)));
          np_div (np_sign (endog - mu) * r) scale }"

definition Poisson_deviance :: "obs list \<Rightarrow> real \<Rightarrow> real option" where
  "Poisson_deviance rows scale =
     do { s \<leftarrow> np_sum (map (\<lambda>(endog, mu, freq_weights).
                 do { q \<leftarrow> np_div endog mu;
                      let endog_mu = Poisson_clean q;
                      l \<leftarrow> np_log endog_mu;
                      Some (endog * freq_weights * l) }) rows);
          np_div (2 * s) scale }"

definition QuasiPoisson_clean :: "real \<Rightarrow> real" where
  "QuasiPoisson_clean x = np_clip_inf x FLOAT_EPS"

definition QuasiPoisson_resid_dev :: "real \<Rightarrow> real \<Rightarrow> real \<Rightarrow> real option" where
  "QuasiPoisson_resid_dev endog mu scale =
     do { q \<leftarrow> np_div endog mu;
          let endog_mu = QuasiPoisson_clean q;
          l \<leftarrow> np_log endog_mu;
          r \<leftarrow> np_sqrt (2 * (endog * l - (endog - mu)));
          np_div (np_sign (endog - mu) * r) scale }"

definition QuasiPoisson_deviance :: "obs list \<Rightarrow> real \<Rightarrow> real option" where
  "QuasiPoisson_deviance rows scale =
     do { s \<leftarrow> np_sum (map (\<lambda>(endog, mu, freq_weights).
                 do { q \<leftarrow> np_div endog mu;
                      let endog_mu = QuasiPoisson_clean q;
                      l \<leftarrow> np_log endog_mu;
                      Some (endog * freq_weights * l) }) rows);
          np_div (2 * s) scale }"

subsection \<open>Gaussian\<close>

definition Gaussian_resid_dev :: "family \<Rightarrow> real \<Rightarrow> real \<Rightarrow> real \<Rightarrow> real option" where
  "Gaussian_resid_dev self endog mu scale =
     do { v \<leftarrow> V_call (variance self) mu;
          s \<leftarrow> np_sqrt v;
          a \<leftarrow> np_div (endog - mu) s;
          np_div a scale }"

definition Gaussian_deviance :: "obs list \<Rightarrow> real \<Rightarrow> real option" where
  "Gaussian_deviance rows scale =
     do { s \<leftarrow> np_sum (map (\<lambda>(endog, mu, freq_weights).
                 Some (freq_weights * (endog - mu) ^ 2)) rows);
          np_div s scale }"

definition Gaussian_loglike :: "family \<Rightarrow> obs list \<Rightarrow> real \<Rightarrow> real option" where
  \<comment> \<open>\<open>endog.shape[0]\<close> is the number of rows\<close>
  "Gaussian_loglike self rows scale =
     (let generic =
        np_sum (map (\<lambda>(endog, mu, freq_weights).
          do { a \<leftarrow> np_div (endog * mu - mu ^ 2 / 2) scale;
               b \<leftarrow> np_div (endog ^ 2) (2 * scale);
               c \<leftarrow> np_log (2 * pi * scale);
               Some (freq_weights * (a - b - 0.5 * c)) }) rows)
      in case getlink self of
           None \<Rightarrow> None
         | Some l \<Rightarrow>
             if isinstance l L_Power then
               (case attrs l of
                  PowerAttrs pw \<Rightarrow>
                    if pw = 1 then
                      (let nobs2 = real (length rows) / 2.0
                       in do { SSR \<leftarrow> np_sum (map (\<lambda>(endog, mu, freq_weights).
                                         do { f \<leftarrow> fitted self mu; Some ((endog - f) ^ 2) }) rows);
                               a \<leftarrow> np_log SSR;
                               let llf = - a * nobs2;
                               q \<leftarrow> np_div pi nobs2;
                               b \<leftarrow> np_log q;
                               Some (llf - (1 + b) * nobs2) })
                    else generic
                | _ \<Rightarrow> None)
             else generic)"

subsection \<open>Gamma\<close>

definition Gamma_clean :: "real \<Rightarrow> real" where
  "Gamma_clean x = np_clip_inf x FLOAT_EPS"

definition Gamma_deviance :: "obs list \<Rightarrow> real \<Rightarrow> real option" where
  "Gamma_deviance rows scale =
     do { s \<leftarrow> np_sum (map (\<lambda>(endog, mu, freq_weights).
                 do { q \<leftarrow> np_div endog mu;
                      let endog_mu = Gamma_clean q;
                      a \<leftarrow> np_div (endog - mu) mu;
                      l \<leftarrow> np_log endog_mu;
                      Some (freq_weights * (a - l)) }) rows);
          Some (2 * s) }"

definition Gamma_resid_dev :: "real \<Rightarrow> real \<Rightarrow> real \<Rightarrow> real option" where
  "Gamma_resid_dev endog mu scale =
     do { q \<leftarrow> np_div endog mu;
          let endog_mu = Gamma_clean q;
          a \<leftarrow> np_div (- (endog - mu)) mu;
          l \<leftarrow> np_log endog_mu;
          r \<leftarrow> np_sqrt (- 2 * (a + l));
          Some (np_sign (endog - mu) * r) }"

subsection \<open>Binomial\<close>

text \<open>
  The response handed to \<open>initialize\<close>: a one-dimensional array, or a two-dimensional
  one, \<open>A2 k rows\<close> being the array of shape \<open>(length rows, k)\<close> whose rows each have
  \<open>k\<close> entries. An array result is \<open>Some\<close> when every element of it is finite.
\<close>

datatype ndarray = A1 "real list" | A2 nat "real list list"

definition Binomial_initialize ::
    "family \<Rightarrow> ndarray \<Rightarrow> real list \<Rightarrow> family \<times> (ndarray \<times> real list) option" where
  \<comment> \<open>the family after the call and the pair returned; \<open>freq_weights\<close> is not read\<close>
  "Binomial_initialize self endog freq_weights =
     (case endog of
        A1 xs \<Rightarrow> (self, Some (endog, replicate (length xs) 1))
      | A2 k rows \<Rightarrow>
          if k > 1 then
            (let y = map (\<lambda>r. r ! 0) rows;
                 self = self\<lparr>n := Some (Array (map sum_list rows))\<rparr>
             in (self,
                 case n self of
                   Some (Array ns) \<Rightarrow>
                     map_option (\<lambda>r. (A1 r, ns)) (those (map2 (\<lambda>a b. np_div (a * 1.0) b) y ns))
                 | _ \<Rightarrow> None))
          else (self, Some (endog, replicate (length rows) 1)))"

section \<open>Quantities the specification names\<close>

definition weighted_sq_sum :: "(real \<Rightarrow> real \<Rightarrow> real option) \<Rightarrow> obs list \<Rightarrow> real option" where
  \<comment> \<open>the frequency-weighted sum of the squares of the residuals \<open>resid endog mu\<close>\<close>
  "weighted_sq_sum resid rows =
     np_sum (map (\<lambda>(endog, mu, freq_weights).
       do { r \<leftarrow> resid endog mu; Some (freq_weights * r ^ 2) }) rows)"

definition SSR :: "obs list \<Rightarrow> real" where
  \<comment> \<open>the sum of squared differences between the response and the fitted means\<close>
  "SSR rows = (\<Sum>(endog, mu, freq_weights) \<leftarrow> rows. (endog - mu) ^ 2)"

text \<open>
  The standard Cauchy distribution in closed form: an instance of a distribution, the one
  \<open>scipy.stats.cauchy\<close> computes.
\<close>

definition std_cauchy :: dist where
  "std_cauchy =
     \<lparr>cdf = (\<lambda>z. 1 / 2 + arctan z / pi),
      ppf = (\<lambda>p. tan (pi * (p - 1 / 2))),
      pdf = (\<lambda>x. 1 / (pi * (1 + x ^ 2)))\<rparr>"

definition dbn_regular :: "dist \<Rightarrow> bool" where
  \<comment> \<open>what is assumed of a distribution of the library: on \<open>(0,1)\<close> the distribution
      function undoes the quantile function, and the density is positive\<close>
  "dbn_regular d = ((\<forall>q. 0 < q \<and> q < 1 \<longrightarrow> cdf d (ppf d q) = q) \<and> (\<forall>x. 0 < pdf d x))"



definition weight_domain :: "family_kind \<Rightarrow> link_class \<Rightarrow> real \<Rightarrow> bool" where
  \<comment> \<open>the means at which the IRLS weight is positive: the positive means of the Poisson,
      QuasiPoisson and Gamma families; every mean of the Binomial family; every mean of
      the Gaussian family, zero excepted under the inverse link\<close>
  "weight_domain k c mu =
     (case k of
        Poisson \<Rightarrow> 0 < mu
      | QuasiPoisson \<Rightarrow> 0 < mu
      | Gamma \<Rightarrow> 0 < mu
      | Gaussian \<Rightarrow> c \<noteq> L_inverse_power \<or> mu \<noteq> 0
      | Binomial \<Rightarrow> True)"

section \<open>Properties\<close>

subsection \<open>Auxiliary facts\<close>

lemma FLOAT_EPS_pos: "0 < FLOAT_EPS"
  by (simp add: FLOAT_EPS_def)

lemma FLOAT_EPS_lt_half: "FLOAT_EPS < 1 / 2"
  by (simp add: FLOAT_EPS_def)

lemma mro_cases:
  "mro L_Link = [L_Link]"
  "mro L_Logit = [L_Logit, L_Link]"
  "mro L_logit = [L_logit, L_Logit, L_Link]"
  "mro L_Power = [L_Power, L_Link]"
  "mro L_inverse_power = [L_inverse_power, L_Power, L_Link]"
  "mro L_sqrt = [L_sqrt, L_Power, L_Link]"
  "mro L_inverse_squared = [L_inverse_squared, L_Power, L_Link]"
  "mro L_identity = [L_identity, L_Power, L_Link]"
  "mro L_Log = [L_Log, L_Link]"
  "mro L_log = [L_log, L_Log, L_Link]"
  "mro L_CDFLink = [L_CDFLink, L_Logit, L_Link]"
  "mro L_probit = [L_probit, L_CDFLink, L_Logit, L_Link]"
  "mro L_cauchy = [L_cauchy, L_CDFLink, L_Logit, L_Link]"
  "mro L_CLogLog = [L_CLogLog, L_Logit, L_Link]"
  "mro L_cloglog = [L_cloglog, L_CLogLog, L_Logit, L_Link]"
  "mro L_NegativeBinomial = [L_NegativeBinomial]"
  "mro L_nbinom = [L_nbinom, L_NegativeBinomial]"
  by (simp_all add: mro_def numeral_3_eq_3)

lemma Logit_clean_bounds: "FLOAT_EPS \<le> Logit_clean p \<and> Logit_clean p \<le> 1 - FLOAT_EPS"
  using FLOAT_EPS_lt_half by (simp add: Logit_clean_def np_clip_def min_def max_def)

lemma Logit_clean_01: "Logit_clean 0 = FLOAT_EPS" "Logit_clean 1 = 1 - FLOAT_EPS"
  using FLOAT_EPS_lt_half FLOAT_EPS_pos
  by (simp_all add: Logit_clean_def np_clip_def min_def max_def)

lemma Logit_call_total: "Logit_call p = Some (ln (Logit_clean p / (1 - Logit_clean p)))"
  using Logit_clean_bounds [of p] FLOAT_EPS_pos
  by (simp add: Logit_call_def Let_def np_div_def np_log_def)

lemma Logit_deriv_total: "Logit_deriv p = Some (1 / (Logit_clean p * (1 - Logit_clean p)))"
  using Logit_clean_bounds [of p] FLOAT_EPS_pos
  by (simp add: Logit_deriv_def Let_def np_div_def)

lemma setlink_state: "fst (setlink self l) = self\<lparr>p_link := Some l\<rparr>"
  by (simp add: setlink_def Let_def split: sum.splits)

lemma py_max_isinstance:
  "cs \<noteq> [] \<Longrightarrow> py_max (map (isinstance l) cs) = Inr (\<exists>c\<in>set cs. isinstance l c)"
  by (simp add: py_max_def list_ex_iff)

lemma links_nonempty: "links k \<noteq> []"
  by (cases k) simp_all

lemma initialize_variance: "variance (fst (Binomial_initialize self endog fw)) = variance self"
  by (simp add: Binomial_initialize_def Let_def split: ndarray.splits)

lemma V_Binomial_1:
  "V_call (V_Binomial 1) mu =
     Some (np_clip mu FLOAT_EPS (1 - FLOAT_EPS) * (1 - np_clip mu FLOAT_EPS (1 - FLOAT_EPS)) * 1)"
  by (simp add: V_call_def V_Binomial_clean_quotient_def)

lemma V_Binomial_0:
  "V_call (V_Binomial 0) 1 = Some 0" "V_call (V_Binomial 0) (- 1) = Some 0"
  "V_call (V_Binomial 0) 0 = None"
  by (simp_all add: V_call_def V_Binomial_clean_quotient_def)

lemma col0: "map (\<lambda>r. r ! 0) (map (\<lambda>(s, f). [s, f]) sf) = map fst sf"
  by (induction sf) auto

lemma row_sums: "map sum_list (map (\<lambda>(s, f). [s, f]) sf) = map (\<lambda>(s, f). s + f) sf"
  by (induction sf) auto

lemma those_div:
  "\<forall>(s, f)\<in>set sf. s + f \<noteq> 0 \<Longrightarrow>
   those (map2 (\<lambda>a b. np_div (a * 1.0) b) (map fst sf) (map (\<lambda>(s, f). s + f) sf))
   = Some (map (\<lambda>(s, f). s / (s + f)) sf)"
  by (induction sf) (auto simp: np_div_def)

subsection \<open>The Binomial variance after initialization\<close>

text \<open>
  Claim C2, as the code has it. \<open>Binomial.initialize\<close> stores the trial counts in the
  family's attribute \<open>n\<close> and leaves the variance function alone: the family's variance
  function is the one \<open>__init__\<close> built with \<open>n = 1\<close>, so after initialization
  \<open>variance(mu)\<close> is \<open>clip(mu, eps, 1 - eps) * (1 - clip(mu, eps, 1 - eps))\<close>
  whatever the response was.
\<close>

theorem Binomial_variance_keeps_n_1:
  "variance (fst (Binomial_initialize self endog fw)) = variance self
   \<and> V_call (variance (fst (Binomial_initialize
               ((new_family Binomial)\<lparr>p_link := lk\<rparr>) endog fw))) mu
     = Some (np_clip mu FLOAT_EPS (1 - FLOAT_EPS) * (1 - np_clip mu FLOAT_EPS (1 - FLOAT_EPS)))"
  by (simp add: initialize_variance V_Binomial_1)

text \<open>
  The claim as the specification words it fails: with successes 3 and failures 7 the
  family's \<open>n\<close> becomes \<open>[10]\<close>, the variance at the mean 0.3 is 0.21, and the
  Binomial formula with \<open>n = 10\<close> gives 0.291.
\<close>

theorem Binomial_variance_derived_n_counterexample:
  "n (fst (Binomial_initialize (new_family Binomial) (A2 2 [[3, 7]]) [1])) = Some (Array [10])
   \<and> V_call (variance (fst (Binomial_initialize (new_family Binomial) (A2 2 [[3, 7]]) [1])))
        (3 / 10) = Some (21 / 100)
   \<and> np_clip ((3 / 10) / 10) FLOAT_EPS (1 - FLOAT_EPS)
       * (1 - np_clip ((3 / 10) / 10) FLOAT_EPS (1 - FLOAT_EPS)) * 10 = 291 / 1000"
  by (simp add: Binomial_initialize_def Let_def V_call_def V_Binomial_clean_quotient_def
        np_clip_def FLOAT_EPS_def)

subsection \<open>Link validation\<close>

text \<open>
  Claim C3, as the code has it. Assigning a link that is an instance of none of the
  family's accepted classes raises. When the object is an instance of \<open>Link\<close> the
  exception is a \<open>ValueError\<close> whose message holds the \<open>repr\<close> of the accepted list and
  the \<open>str\<close> of the link; when it is not (the classes \<open>NegativeBinomial\<close> and \<open>nbinom\<close>
  do not derive from \<open>Link\<close>) it is a \<open>TypeError\<close> with a fixed message. Construction
  raises the same exception.
\<close>

theorem invalid_link_raises:
  assumes "\<not> (\<exists>c\<in>set (links (kind self)). isinstance l c)"
  shows "snd (setlink self l) =
           Some (if isinstance l L_Link
                 then ValueError (''Invalid link for family, should be in ''
                        @ repr_links (links (kind self)) @ ''. (got '' @ str_link l @ '')'')
                 else TypeError ''The input should be a valid Link object.'')
         \<and> (self = new_family k \<and> l = new_link S a c \<longrightarrow>
              init S a k c =
                Inl (if isinstance l L_Link
                     then ValueError (''Invalid link for family, should be in ''
                            @ repr_links (links k) @ ''. (got '' @ str_link l @ '')'')
                     else TypeError ''The input should be a valid Link object.''))"
proof -
  have k: "kind (new_family k) = k"
    by (cases k) simp_all
  have e: "setlink self l =
      (self\<lparr>p_link := Some l\<rparr>,
       Some (if isinstance l L_Link
             then ValueError (''Invalid link for family, should be in ''
                    @ repr_links (links (kind self)) @ ''. (got '' @ str_link l @ '')'')
             else TypeError ''The input should be a valid Link object.''))"
    using assms by (simp add: setlink_def Let_def py_max_isinstance links_nonempty errmsg_def)
  show ?thesis
  proof (intro conjI impI)
    show "snd (setlink self l) =
           Some (if isinstance l L_Link
                 then ValueError (''Invalid link for family, should be in ''
                        @ repr_links (links (kind self)) @ ''. (got '' @ str_link l @ '')'')
                 else TypeError ''The input should be a valid Link object.'')"
      by (simp add: e)
  next
    assume c: "self = new_family k \<and> l = new_link S a c"
    have "setlink (new_family k) (new_link S a c) =
      ((new_family k)\<lparr>p_link := Some l\<rparr>,
       Some (if isinstance l L_Link
             then ValueError (''Invalid link for family, should be in ''
                    @ repr_links (links k) @ ''. (got '' @ str_link l @ '')'')
             else TypeError ''The input should be a valid Link object.''))"
      using e c k by simp
    then show "init S a k c =
                Inl (if isinstance l L_Link
                     then ValueError (''Invalid link for family, should be in ''
                            @ repr_links (links k) @ ''. (got '' @ str_link l @ '')'')
                     else TypeError ''The input should be a valid Link object.'')"
      by (simp add: init_def)
  qed
qed

theorem invalid_link_raises_witness:
  "snd (setlink (new_family Poisson) \<lparr>cls = L_logit, attrs = NoAttrs, addr = ''7f00''\<rparr>) =
     Some (ValueError (''Invalid link for family, should be in ''
            @ repr_links [L_log, L_identity, L_sqrt]
            @ ''. (got <spglm.links.logit object at 0x7f00>)''))
   \<and> snd (setlink (new_family Poisson) \<lparr>cls = L_nbinom, attrs = AlphaAttrs 1, addr = ''7f00''\<rparr>)
       = Some (TypeError ''The input should be a valid Link object.'')"
  using invalid_link_raises [of "new_family Poisson"
          "\<lparr>cls = L_logit, attrs = NoAttrs, addr = ''7f00''\<rparr>"]
        invalid_link_raises [of "new_family Poisson"
          "\<lparr>cls = L_nbinom, attrs = AlphaAttrs 1, addr = ''7f00''\<rparr>"]
  by (simp add: isinstance_def mro_cases str_link_def)

text \<open>
  The claim as the specification words it fails: an \<open>nbinom\<close> link assigned to a Poisson
  family raises the \<open>TypeError\<close>, whose message holds neither the link nor the accepted
  list.
\<close>

theorem invalid_link_message_counterexample:
  "snd (setlink (new_family Poisson) \<lparr>cls = L_nbinom, attrs = AlphaAttrs 1, addr = ''7f00''\<rparr>)
     = Some (TypeError ''The input should be a valid Link object.'')
   \<and> \<not> list_ex (isinstance \<lparr>cls = L_nbinom, attrs = AlphaAttrs 1, addr = ''7f00''\<rparr>)
          (links Poisson)
   \<and> \<not> sublist (str_link \<lparr>cls = L_nbinom, attrs = AlphaAttrs 1, addr = ''7f00''\<rparr>)
          ''The input should be a valid Link object.''
   \<and> \<not> sublist (class_name L_nbinom) ''The input should be a valid Link object.''
   \<and> \<not> sublist (repr_links (links Poisson)) ''The input should be a valid Link object.''"
proof -
  have "\<not> sublist (str_link \<lparr>cls = L_nbinom, attrs = AlphaAttrs 1, addr = ''7f00''\<rparr>)
          ''The input should be a valid Link object.''"
    by (simp add: str_link_def) code_simp
  moreover have "\<not> sublist (class_name L_nbinom) ''The input should be a valid Link object.''"
    by simp code_simp
  moreover have "\<not> sublist (repr_links (links Poisson)) ''The input should be a valid Link object.''"
    by (simp add: repr_links_def repr_class_def) code_simp
  ultimately show ?thesis
    by (simp add: setlink_def isinstance_def mro_cases)
qed

subsection \<open>Binomial initialization\<close>

text \<open>
  Claim C8. On a two-column response of successes and failures, no row of which sums
  to zero, \<open>Binomial.initialize\<close> sets \<open>n\<close> to the row sums and returns the
  successes divided by \<open>n\<close> (and \<open>n\<close>); a one-dimensional response is returned
  unchanged, with the family unchanged, so that \<open>n\<close> is still the 1 of \<open>__init__\<close>.
\<close>

theorem Binomial_initialize_grouped:
  assumes "\<forall>(s, f)\<in>set sf. s + f \<noteq> 0"
  shows "Binomial_initialize self (A2 2 (map (\<lambda>(s, f). [s, f]) sf)) fw =
           (self\<lparr>n := Some (Array (map (\<lambda>(s, f). s + f) sf))\<rparr>,
            Some (A1 (map (\<lambda>(s, f). s / (s + f)) sf), map (\<lambda>(s, f). s + f) sf))
         \<and> Binomial_initialize self (A1 xs) fw = (self, Some (A1 xs, replicate (length xs) 1))
         \<and> n (fst (Binomial_initialize ((new_family Binomial)\<lparr>p_link := lk\<rparr>) (A1 xs) fw))
             = Some (Scalar 1)"
  using those_div [OF assms]
  by (simp add: Binomial_initialize_def Let_def col0 row_sums del: map_map)

theorem Binomial_initialize_grouped_witness:
  "Binomial_initialize (new_family Binomial) (A2 2 [[3, 7]]) [1] =
     ((new_family Binomial)\<lparr>n := Some (Array [10])\<rparr>, Some (A1 [3 / 10], [10]))
   \<and> Binomial_initialize (new_family Binomial) (A1 [0, 1, 1]) [1] =
       (new_family Binomial, Some (A1 [0, 1, 1], [1, 1, 1]))
   \<and> n (fst (Binomial_initialize (new_family Binomial) (A1 [0, 1, 1]) [1])) = Some (Scalar 1)"
  using Binomial_initialize_grouped [where sf = "[(3, 7)]" and self = "new_family Binomial"
          and xs = "[0, 1, 1]" and fw = "[1]" and lk = None]
  by (simp add: numeral_3_eq_3)

subsection \<open>The Logit link at the boundary\<close>

text \<open>
  Claim C9. The Logit transform and its derivative clip their argument to
  \<open>[eps, 1 - eps]\<close>, \<open>eps\<close> being the 64-bit machine epsilon, before they divide and take
  the logarithm; at every argument, 0 and 1 among them, both return a finite value and
  raise nothing.
\<close>

theorem Logit_finite_at_boundary:
  "Logit_call 0 = Some (ln (FLOAT_EPS / (1 - FLOAT_EPS)))
   \<and> Logit_call 1 = Some (ln ((1 - FLOAT_EPS) / FLOAT_EPS))
   \<and> Logit_deriv 0 = Some (1 / (FLOAT_EPS * (1 - FLOAT_EPS)))
   \<and> Logit_deriv 1 = Some (1 / ((1 - FLOAT_EPS) * FLOAT_EPS))
   \<and> (\<forall>p. Logit_call p = Some (ln (Logit_clean p / (1 - Logit_clean p)))
          \<and> Logit_deriv p = Some (1 / (Logit_clean p * (1 - Logit_clean p)))
          \<and> Logit_clean p = np_clip p FLOAT_EPS (1 - FLOAT_EPS)
          \<and> FLOAT_EPS \<le> Logit_clean p \<and> Logit_clean p \<le> 1 - FLOAT_EPS)"
  using Logit_clean_bounds
  by (simp add: Logit_call_total Logit_deriv_total Logit_clean_01) (simp add: Logit_clean_def)

subsection \<open>Link assignment is not atomic\<close>

text \<open>
  Claim C10. \<open>_setlink\<close> stores the candidate in \<open>_link\<close> before it validates it:
  whenever the assignment raises, the family holds the rejected link, whatever link it
  held before. A candidate that is not a \<open>Link\<close> raises a \<open>TypeError\<close>, a \<open>Link\<close> of no
  accepted class a \<open>ValueError\<close>.
\<close>

theorem setlink_keeps_rejected_link:
  assumes "snd (setlink self l) = Some e"
  shows "getlink (fst (setlink self l)) = Some l
         \<and> fst (setlink self l) = self\<lparr>p_link := Some l\<rparr>
         \<and> (if isinstance l L_Link then \<exists>m. e = ValueError m else \<exists>m. e = TypeError m)"
  using assms
  by (auto simp: setlink_state getlink_def setlink_def Let_def py_max_def
           split: sum.splits if_splits)

theorem setlink_keeps_rejected_link_witness:
  "snd (setlink ((new_family Poisson)\<lparr>p_link := Some \<lparr>cls = L_log, attrs = NoAttrs, addr = ''7e00''\<rparr>\<rparr>)
          \<lparr>cls = L_logit, attrs = NoAttrs, addr = ''7f00''\<rparr>)
     = Some (ValueError (errmsg [L_log, L_identity, L_sqrt]
               \<lparr>cls = L_logit, attrs = NoAttrs, addr = ''7f00''\<rparr>))
   \<and> getlink (fst (setlink
         ((new_family Poisson)\<lparr>p_link := Some \<lparr>cls = L_log, attrs = NoAttrs, addr = ''7e00''\<rparr>\<rparr>)
         \<lparr>cls = L_logit, attrs = NoAttrs, addr = ''7f00''\<rparr>))
     = Some \<lparr>cls = L_logit, attrs = NoAttrs, addr = ''7f00''\<rparr>"
proof -
  have e: "snd (setlink
      ((new_family Poisson)\<lparr>p_link := Some \<lparr>cls = L_log, attrs = NoAttrs, addr = ''7e00''\<rparr>\<rparr>)
      \<lparr>cls = L_logit, attrs = NoAttrs, addr = ''7f00''\<rparr>)
     = Some (ValueError (errmsg [L_log, L_identity, L_sqrt]
               \<lparr>cls = L_logit, attrs = NoAttrs, addr = ''7f00''\<rparr>))"
    by (simp add: setlink_def Let_def py_max_def isinstance_def mro_cases)
  show ?thesis
    using setlink_keeps_rejected_link [OF e] e by (simp add: getlink_def)
qed

subsection \<open>The Gaussian log-likelihood under the identity link\<close>

lemma np_power_one: "np_power x 1 = Some x"
  by (simp add: np_power_def)

lemma Power_instance_dispatch:
  "isinstance l L_Power \<Longrightarrow>
     \<not> isinstance l L_CDFLink \<and> \<not> isinstance l L_CLogLog \<and> \<not> isinstance l L_Logit"
  by (cases "cls l") (simp_all add: isinstance_def mro_cases)

lemma np_sum_Some: "np_sum (map (\<lambda>r. Some (f r)) rows) = Some (\<Sum>r\<leftarrow>rows. f r)"
  by (induction rows) simp_all

lemma SSR_nonneg: "0 \<le> SSR rows"
  unfolding SSR_def by (induction rows) auto

lemma identity_fitted:
  assumes "getlink self = Some l" "isinstance l L_Power" "attrs l = PowerAttrs 1"
  shows "fitted self mu = Some mu"
  using assms Power_instance_dispatch [OF assms(2)]
  by (simp add: fitted_def link_inverse_def Power_inverse_def np_div_def np_power_one)

text \<open>
  Claim C7. When the link of a Gaussian family is a \<open>Power\<close> instance with power 1 (the
  identity link), \<open>loglike\<close> on \<open>n > 0\<close> observations whose sum of squared residuals
  \<open>SSR\<close> is not zero returns \<open>-(n/2) ln SSR - (n/2) (1 + ln (2 pi / n))\<close>, the closed
  form of ordinary least squares; the frequency weights and the scale play no part.
\<close>

theorem Gaussian_loglike_identity_OLS:
  assumes "getlink self = Some l" "isinstance l L_Power" "attrs l = PowerAttrs 1"
      and "rows \<noteq> []" "SSR rows \<noteq> 0"
  shows "Gaussian_loglike self rows scale =
           Some (- (real (length rows) / 2) * ln (SSR rows)
                 - (real (length rows) / 2) * (1 + ln (2 * pi / real (length rows))))"
proof -
  have s: "np_sum (map (\<lambda>(endog, mu, freq_weights).
             do { f \<leftarrow> fitted self mu; Some ((endog - f) ^ 2) }) rows) = Some (SSR rows)"
    unfolding SSR_def
    by (induction rows) (auto simp: identity_fitted [OF assms(1,2,3)])
  have pos: "0 < SSR rows"
    using SSR_nonneg [of rows] assms(5) by simp
  have n: "0 < real (length rows)"
    using assms(4) by simp
  have q: "pi / (real (length rows) / 2) = 2 * pi / real (length rows)"
    by simp
  have qpos: "0 < 2 * pi / real (length rows)"
    using n by simp
  show ?thesis
    using assms(1,2,3) pos n qpos
    by (simp add: Gaussian_loglike_def Let_def s np_log_def np_div_def q algebra_simps)
qed

theorem Gaussian_loglike_identity_OLS_witness:
  "Gaussian_loglike
     ((new_family Gaussian)\<lparr>p_link := Some \<lparr>cls = L_identity, attrs = PowerAttrs 1, addr = ''7f00''\<rparr>\<rparr>)
     [(1, 0, 1)] 1
   = Some (- (1 / 2) * (1 + ln (2 * pi)))"
  using Gaussian_loglike_identity_OLS [of "(new_family Gaussian)\<lparr>p_link := Some \<lparr>cls = L_identity, attrs = PowerAttrs 1, addr = ''7f00''\<rparr>\<rparr>"
      "\<lparr>cls = L_identity, attrs = PowerAttrs 1, addr = ''7f00''\<rparr>" "[(1, 0, 1)]" 1]
  by (simp add: getlink_def isinstance_def mro_cases SSR_def)

subsection \<open>Deviance and deviance residuals\<close>

lemma ln_FLOAT_EPS: "ln FLOAT_EPS \<le> - 1"
proof -
  have "exp (1::real) \<le> 2 ^ 52"
    using exp_le by (rule order_trans) simp
  then have "(1::real) \<le> ln (2 ^ 52)"
    by (metis exp_gt_zero ln_exp ln_mono)
  then show ?thesis
    by (simp add: FLOAT_EPS_def ln_div)
qed

lemma Gaussian_sq:
  "variance self = V_constant \<Longrightarrow>
   weighted_sq_sum (\<lambda>endog mu. Gaussian_resid_dev self endog mu 1) rows = Gaussian_deviance rows 1"
  unfolding weighted_sq_sum_def Gaussian_deviance_def
  by (induction rows)
     (auto simp: Gaussian_resid_dev_def V_constant_def V_call_def np_sqrt_def np_div_def
           split: Option.bind_splits)

lemma Gamma_unit:
  assumes "0 < y" "0 < mu"
  shows "\<exists>r. Gamma_resid_dev y mu 1 = Some r
           \<and> r ^ 2 = 2 * ((y - mu) / mu - ln (Gamma_clean (y / mu)))"
proof -
  let ?q = "y / mu"
  let ?c = "Gamma_clean ?q"
  let ?u = "(y - mu) / mu - ln ?c"
  have q: "0 < ?q" using assms by simp
  have c: "0 < ?c" using q FLOAT_EPS_pos by (simp add: Gamma_clean_def np_clip_inf_def max_def)
  have nonneg: "0 \<le> ?u"
  proof (cases "FLOAT_EPS \<le> ?q")
    case True
    then have "?c = ?q" by (simp add: Gamma_clean_def np_clip_inf_def max_def)
    moreover have "ln ?q \<le> ?q - 1" using q by (rule ln_le_minus_one)
    moreover have "(y - mu) / mu = ?q - 1" using assms by (simp add: field_simps)
    ultimately show ?thesis by simp
  next
    case False
    then have "?c = FLOAT_EPS" by (simp add: Gamma_clean_def np_clip_inf_def max_def)
    moreover have "(y - mu) / mu = ?q - 1" using assms by (simp add: field_simps)
    ultimately show ?thesis using ln_FLOAT_EPS q by simp
  qed
  have zero: "y = mu \<Longrightarrow> ?u = 0"
    using assms FLOAT_EPS_def by (simp add: Gamma_clean_def np_clip_inf_def max_def)
  have d1: "np_div y mu = Some ?q"
    using assms by (simp add: np_div_def)
  have d2: "np_div (- (y - mu)) mu = Some (- (y - mu) / mu)"
    using assms by (simp add: np_div_def)
  have lg: "np_log ?c = Some (ln ?c)"
    using c by (simp add: np_log_def)
  have arg: "- 2 * (- (y - mu) / mu + ln ?c) = 2 * ?u"
    by (simp add: algebra_simps)
  have nonneg2: "0 \<le> 2 * ?u"
    by (rule mult_nonneg_nonneg) (use nonneg in simp_all)
  have sq: "np_sqrt (- 2 * (- (y - mu) / mu + ln ?c)) = Some (sqrt (2 * ?u))"
    unfolding arg np_sqrt_def using nonneg2 by (simp only: if_True)
  have r: "Gamma_resid_dev y mu 1 = Some (sgn (y - mu) * sqrt (2 * ?u))"
    unfolding Gamma_resid_dev_def
    by (simp only: d1 d2 lg sq Let_def np_sign_def Option.bind.bind_lunit)
  show ?thesis
  proof (cases "y = mu")
    case True
    then show ?thesis using r zero by simp
  next
    case False
    then have "(sgn (y - mu)) ^ 2 = 1"
      by (simp add: sgn_if)
    then show ?thesis using r nonneg2 by (simp add: power_mult_distrib del: mult_nonneg_nonneg)
  qed
qed

lemma Gamma_deviance_unit:
  assumes "0 < y" "0 < mu"
  shows "do { q \<leftarrow> np_div y mu;
              let endog_mu = Gamma_clean q;
              a \<leftarrow> np_div (y - mu) mu;
              l \<leftarrow> np_log endog_mu;
              Some (w * (a - l)) }
         = Some (w * ((y - mu) / mu - ln (Gamma_clean (y / mu))))"
proof -
  have c: "0 < Gamma_clean (y / mu)"
    using assms FLOAT_EPS_pos by (simp add: Gamma_clean_def np_clip_inf_def max_def)
  show ?thesis
    using assms c by (simp add: np_div_def np_log_def Let_def)
qed

lemma np_sum_map_Some:
  "\<forall>x\<in>set xs. f x = Some (g x) \<Longrightarrow> np_sum (map f xs) = Some (\<Sum>x\<leftarrow>xs. g x)"
  by (induction xs) simp_all

lemma Gamma_sq:
  assumes "\<forall>(y, mu, w)\<in>set rows. 0 < y \<and> 0 < mu"
  shows "weighted_sq_sum (\<lambda>endog mu. Gamma_resid_dev endog mu 1) rows = Gamma_deviance rows 1"
proof -
  let ?u = "\<lambda>y mu. (y - mu) / mu - ln (Gamma_clean (y / mu))"
  have d: "np_sum (map (\<lambda>(endog, mu, freq_weights).
                 do { q \<leftarrow> np_div endog mu;
                      let endog_mu = Gamma_clean q;
                      a \<leftarrow> np_div (endog - mu) mu;
                      l \<leftarrow> np_log endog_mu;
                      Some (freq_weights * (a - l)) }) rows)
            = Some (\<Sum>x\<leftarrow>rows. case x of (y, mu, w) \<Rightarrow> w * ?u y mu)"
  proof (rule np_sum_map_Some, rule ballI)
    fix x assume m: "x \<in> set rows"
    obtain y mu w where x: "x = (y, mu, w)" by (cases x) auto
    have p: "0 < y" "0 < mu" using assms m x by auto
    show "(case x of (endog, mu, freq_weights) \<Rightarrow>
                 do { q \<leftarrow> np_div endog mu;
                      let endog_mu = Gamma_clean q;
                      a \<leftarrow> np_div (endog - mu) mu;
                      l \<leftarrow> np_log endog_mu;
                      Some (freq_weights * (a - l)) })
          = Some (case x of (y, mu, w) \<Rightarrow> w * ?u y mu)"
      unfolding x prod.case by (rule Gamma_deviance_unit [OF p])
  qed
  have r: "np_sum (map (\<lambda>(endog, mu, freq_weights).
               do { r \<leftarrow> Gamma_resid_dev endog mu 1; Some (freq_weights * r ^ 2) }) rows)
            = Some (\<Sum>x\<leftarrow>rows. case x of (y, mu, w) \<Rightarrow> 2 * (w * ?u y mu))"
  proof (rule np_sum_map_Some, rule ballI)
    fix x assume m: "x \<in> set rows"
    obtain y mu w where x: "x = (y, mu, w)" by (cases x) auto
    have p: "0 < y" "0 < mu" using assms m x by auto
    obtain r where r: "Gamma_resid_dev y mu 1 = Some r" "r ^ 2 = 2 * ?u y mu"
      using Gamma_unit [OF p] by blast
    show "(case x of (endog, mu, freq_weights) \<Rightarrow>
               do { r \<leftarrow> Gamma_resid_dev endog mu 1; Some (freq_weights * r ^ 2) })
          = Some (case x of (y, mu, w) \<Rightarrow> 2 * (w * ?u y mu))"
      unfolding x prod.case using r by simp
  qed
  have t: "(\<Sum>x\<leftarrow>rows. case x of (y, mu, w) \<Rightarrow> 2 * (w * ?u y mu))
         = 2 * (\<Sum>x\<leftarrow>rows. case x of (y, mu, w) \<Rightarrow> w * ?u y mu)"
    by (induction rows) (auto simp: algebra_simps)
  show ?thesis
    unfolding weighted_sq_sum_def Gamma_deviance_def r d t by simp
qed


text \<open>
  Claim C1. The Gaussian and the Gamma family meet the claim (the two lemmas above): the
  weighted sum of their squared deviance residuals is their deviance. The Poisson family
  does not: \<open>Poisson.resid_dev\<close> squares to \<open>2 (y ln (y / mu) - (y - mu))\<close>, and
  \<open>Poisson.deviance\<close> sums \<open>2 y ln (y / mu)\<close> only. At the response 1 with the
  mean 2 and the weight 1 the deviance is \<open>2 ln (1/2)\<close>, a negative number, and the
  squared residual is \<open>2 (ln (1/2) + 1)\<close>, a positive one.
\<close>

theorem Poisson_deviance_differs_from_residuals:
  "Poisson_deviance [(1, 2, 1)] 1 = Some (2 * ln (1 / 2))
   \<and> weighted_sq_sum (\<lambda>endog mu. Poisson_resid_dev endog mu 1) [(1, 2, 1)]
       = Some (2 * (ln (1 / 2) + 1))
   \<and> 2 * ln (1 / 2) < (0::real) \<and> (0::real) < 2 * (ln (1 / 2) + 1)"
proof -
  have e: "Poisson_clean (1 / 2) = 1 / 2"
    by (simp add: Poisson_clean_def np_clip_inf_def FLOAT_EPS_def max_def)
  have l: "ln (1 / 2 :: real) = - ln 2"
    by (simp add: ln_div)
  have l2: "ln (2::real) < 1"
    by (rule ln_2_less_1)
  have d: "Poisson_deviance [(1, 2, 1)] 1 = Some (2 * ln (1 / 2))"
    by (simp add: Poisson_deviance_def np_div_def e np_log_def)
  have r: "Poisson_resid_dev 1 2 1 = Some (- sqrt (2 * (ln (1 / 2) + 1)))"
    using l2 by (simp add: Poisson_resid_dev_def np_div_def e np_log_def np_sqrt_def np_sign_def l)
  have w: "weighted_sq_sum (\<lambda>endog mu. Poisson_resid_dev endog mu 1) [(1, 2, 1)]
       = Some (2 * (ln (1 / 2) + 1))"
    using l2 by (simp add: weighted_sq_sum_def r l)
  show ?thesis using d w l2 by (simp add: l)
qed

subsection \<open>The links, method by method\<close>

lemma FLOAT_EPS_lt_1: "FLOAT_EPS < 1" by (simp add: FLOAT_EPS_def)




lemma Logit_clean_open: "0 < Logit_clean p \<and> Logit_clean p < 1"
  using Logit_clean_bounds [of p] FLOAT_EPS_pos by simp

lemma Log_clean_pos: "0 < Log_clean p"
  using FLOAT_EPS_pos by (simp add: Log_clean_def np_clip_inf_def max_def)









lemma CLogLog_deriv_total:
  "CLogLog_deriv p = Some (1 / ((Logit_clean p - 1) * ln (1 - Logit_clean p)))"
proof -
  have "0 < 1 - Logit_clean p" "1 - Logit_clean p < 1"
    using Logit_clean_open [of p] by simp_all
  then have "ln (1 - Logit_clean p) < 0" by simp
  then show ?thesis
    using Logit_clean_open [of p] by (simp add: CLogLog_deriv_def Let_def np_log_def np_div_def)
qed

lemma np_power_zero: "np_power x 0 = Some 1"
  by (simp add: np_power_def)

lemma Power_identity_methods:
  "Power_call 1 p = Some p" "Power_inverse 1 z = Some z" "Power_deriv 1 p = Some 1"
  "Power_inverse_deriv 1 z = Some 1"
  by (simp_all add: Power_call_def Power_inverse_def Power_deriv_def Power_inverse_deriv_def
        np_power_one np_power_zero np_div_def)









lemma dispatch_CDFLink:
  assumes "isinstance l L_CDFLink" "attrs l = DbnAttrs d"
  shows "link_call l = CDFLink_call d" "link_inverse l = CDFLink_inverse d"
        "link_deriv l = CDFLink_deriv d" "link_inverse_deriv l = CDFLink_inverse_deriv d"
  using assms
  by (auto simp: link_call_def link_inverse_def link_deriv_def link_inverse_deriv_def fun_eq_iff)

lemma dispatch_CLogLog:
  assumes "isinstance l L_CLogLog"
  shows "link_call l = CLogLog_call" "link_inverse l = CLogLog_inverse"
        "link_deriv l = CLogLog_deriv" "link_inverse_deriv l = CLogLog_inverse_deriv"
proof -
  have "\<not> isinstance l L_CDFLink"
    using assms by (cases "cls l") (simp_all add: isinstance_def mro_cases)
  then show "link_call l = CLogLog_call" "link_inverse l = CLogLog_inverse"
        "link_deriv l = CLogLog_deriv" "link_inverse_deriv l = CLogLog_inverse_deriv"
    using assms
    by (auto simp: link_call_def link_inverse_def link_deriv_def link_inverse_deriv_def fun_eq_iff)
qed

lemma dispatch_Logit:
  assumes "cls l = L_Logit \<or> cls l = L_logit"
  shows "link_call l = Logit_call" "link_inverse l = Logit_inverse"
        "link_deriv l = Logit_deriv" "link_inverse_deriv l = Logit_inverse_deriv"
  using assms
  by (auto simp: link_call_def link_inverse_def link_deriv_def link_inverse_deriv_def fun_eq_iff
        isinstance_def mro_cases)

lemma dispatch_Power:
  assumes "isinstance l L_Power" "attrs l = PowerAttrs k"
  shows "link_call l = Power_call k" "link_inverse l = Power_inverse k"
        "link_deriv l = Power_deriv k" "link_inverse_deriv l = Power_inverse_deriv k"
  using assms Power_instance_dispatch [OF assms(1)]
  by (auto simp: link_call_def link_inverse_def link_deriv_def link_inverse_deriv_def fun_eq_iff)

lemma dispatch_Log:
  assumes "isinstance l L_Log"
  shows "link_call l = Log_call" "link_inverse l = Log_inverse"
        "link_deriv l = Log_deriv" "link_inverse_deriv l = Log_inverse_deriv"
proof -
  have "\<not> isinstance l L_CDFLink \<and> \<not> isinstance l L_CLogLog \<and> \<not> isinstance l L_Logit
        \<and> \<not> isinstance l L_Power"
    using assms by (cases "cls l") (simp_all add: isinstance_def mro_cases)
  then show "link_call l = Log_call" "link_inverse l = Log_inverse"
        "link_deriv l = Log_deriv" "link_inverse_deriv l = Log_inverse_deriv"
    using assms
    by (auto simp: link_call_def link_inverse_def link_deriv_def link_inverse_deriv_def fun_eq_iff)
qed







lemma std_cauchy_regular: "dbn_regular std_cauchy"
proof -
  have "1 / 2 + arctan (tan (pi * (q - 1 / 2))) / pi = q" if "0 < q" "q < 1" for q :: real
  proof -
    have lo: "- (pi / 2) < pi * (q - 1 / 2)"
    proof -
      have "pi * (- (1 / 2)) < pi * (q - 1 / 2)"
        using that pi_gt_zero by (intro mult_strict_left_mono) simp_all
      then show ?thesis by simp
    qed
    have hi: "pi * (q - 1 / 2) < pi / 2"
    proof -
      have "pi * (q - 1 / 2) < pi * (1 / 2)"
        using that pi_gt_zero by (intro mult_strict_left_mono) simp_all
      then show ?thesis by simp
    qed
    have "arctan (tan (pi * (q - 1 / 2))) = pi * (q - 1 / 2)"
      using lo hi by (rule arctan_tan)
    then show ?thesis by (simp add: field_simps)
  qed
  moreover have "0 < 1 / (pi * (1 + x ^ 2))" for x :: real
  proof -
    have "0 < 1 + x ^ 2" by (simp add: add_pos_nonneg)
    then show ?thesis using pi_gt_zero by simp
  qed
  ultimately show ?thesis
    by (simp add: dbn_regular_def std_cauchy_def)
qed






subsection \<open>Forward and inverse transforms\<close>







subsection \<open>The derivative of the inverse transform\<close>





subsection \<open>IRLS weights\<close>

lemma init_Inr:
  assumes "init S a k c = Inr self"
  shows "self = (new_family k)\<lparr>p_link := Some (new_link S a c)\<rparr>"
    and "\<exists>c'\<in>set (links k). c' \<in> set (mro c)"
proof -
  have k: "kind (new_family k) = k" by (cases k) simp_all
  have c: "cls (new_link S a c) = c" by (simp add: new_link_def)
  from assms show "self = (new_family k)\<lparr>p_link := Some (new_link S a c)\<rparr>"
    using setlink_state [of "new_family k" "new_link S a c"]
    by (auto simp: init_def split: prod.splits option.splits)
  from assms show "\<exists>c'\<in>set (links k). c' \<in> set (mro c)"
    by (auto simp: init_def setlink_def Let_def py_max_isinstance links_nonempty k
          isinstance_def c split: if_splits)
qed

lemma accepted_classes:
  assumes "\<exists>c'\<in>set (links k). c' \<in> set (mro c)"
  shows "c \<in> set (links k)"
  using assms by (cases k; cases c) (simp_all add: mro_cases)

lemma constructed_instance: "isinstance (new_link S a c) c' = (c' \<in> set (mro c))"
  by (simp add: isinstance_def new_link_def)

lemma deriv_log: "\<exists>d. link_deriv (new_link S a L_log) mu = Some d \<and> d \<noteq> 0"
proof -
  have "isinstance (new_link S a L_log) L_Log"
    by (simp add: constructed_instance mro_cases)
  then show ?thesis
    using Log_clean_pos [of mu]
    by (simp add: dispatch_Log Log_deriv_def Let_def np_div_def)
qed

lemma deriv_identity: "\<exists>d. link_deriv (new_link S a L_identity) mu = Some d \<and> d \<noteq> 0"
proof -
  have i: "isinstance (new_link S a L_identity) L_Power"
       "attrs (new_link S a L_identity) = PowerAttrs 1"
    by (simp add: constructed_instance mro_cases, simp add: new_link_def)
  show ?thesis
    by (simp add: dispatch_Power [OF i] Power_identity_methods)
qed

lemma deriv_sqrt:
  assumes "0 < mu"
  shows "\<exists>d. link_deriv (new_link S a L_sqrt) mu = Some d \<and> d \<noteq> 0"
proof -
  have i: "isinstance (new_link S a L_sqrt) L_Power"
       "attrs (new_link S a L_sqrt) = PowerAttrs (1 / 2)"
    by (simp add: constructed_instance mro_cases, simp add: new_link_def)
  have "link_deriv (new_link S a L_sqrt) mu = Some (1 / 2 * mu powr (1 / 2 - 1))"
    using assms by (simp add: dispatch_Power [OF i] Power_deriv_def np_power_def)
  moreover have "1 / 2 * mu powr (1 / 2 - 1) \<noteq> 0"
    using assms by simp
  ultimately show ?thesis by blast
qed

lemma deriv_inverse_power:
  assumes "mu \<noteq> 0"
  shows "\<exists>d. link_deriv (new_link S a L_inverse_power) mu = Some d \<and> d \<noteq> 0"
proof -
  have i: "isinstance (new_link S a L_inverse_power) L_Power"
       "attrs (new_link S a L_inverse_power) = PowerAttrs (- 1)"
    by (simp add: constructed_instance mro_cases, simp add: new_link_def)
  have "\<exists>v. np_power mu (- 1 - 1) = Some v \<and> v \<noteq> 0"
  proof (cases "0 < mu")
    case True
    then show ?thesis by (simp add: np_power_def)
  next
    case False
    then have "mu < 0" using assms by simp
    moreover have "mu powi (- 2) \<noteq> 0" using assms by simp
    ultimately show ?thesis by (simp add: np_power_def)
  qed
  then show ?thesis
    by (auto simp: dispatch_Power [OF i] Power_deriv_def)
qed

lemma deriv_logit: "\<exists>d. link_deriv (new_link S a L_logit) mu = Some d \<and> d \<noteq> 0"
proof -
  have "cls (new_link S a L_logit) = L_Logit \<or> cls (new_link S a L_logit) = L_logit"
    by (simp add: new_link_def)
  then show ?thesis
    using Logit_clean_open [of mu] by (simp add: dispatch_Logit Logit_deriv_total)
qed

lemma deriv_cloglog: "\<exists>d. link_deriv (new_link S a L_cloglog) mu = Some d \<and> d \<noteq> 0"
proof -
  have i: "isinstance (new_link S a L_cloglog) L_CLogLog"
    by (simp add: constructed_instance mro_cases)
  have c: "0 < 1 - Logit_clean mu" "1 - Logit_clean mu < 1"
    using Logit_clean_open [of mu] by simp_all
  then have "ln (1 - Logit_clean mu) < 0" by simp
  then show ?thesis
    using c by (simp add: dispatch_CLogLog [OF i] CLogLog_deriv_total)
qed

lemma deriv_cdf:
  assumes "c = L_probit \<or> c = L_cauchy"
      and "\<forall>d. attrs (new_link S a c) = DbnAttrs d \<longrightarrow> (\<forall>x. 0 < pdf d x)"
  shows "\<exists>d. link_deriv (new_link S a c) mu = Some d \<and> d \<noteq> 0"
proof -
  have i: "isinstance (new_link S a c) L_CDFLink"
    using assms(1) by (auto simp: constructed_instance mro_cases)
  obtain d where d: "attrs (new_link S a c) = DbnAttrs d"
    using assms(1) by (auto simp: new_link_def)
  have "0 < pdf d (ppf d (Logit_clean mu))"
    using assms(2) d by blast
  then show ?thesis
    by (simp add: dispatch_CDFLink [OF i d] CDFLink_deriv_def Let_def np_div_def)
qed

lemma variance_pos:
  assumes "weight_domain k c mu"
  shows "\<exists>v. V_call (variance (new_family k)) mu = Some v \<and> 0 < v"
proof (cases k)
  case Binomial
  let ?p = "np_clip mu FLOAT_EPS (1 - FLOAT_EPS)"
  have "0 < ?p" "?p < 1"
    using Logit_clean_open [of mu] by (simp_all add: Logit_clean_def)
  then have "0 < ?p * (1 - ?p) * 1" by simp
  then show ?thesis
    unfolding Binomial by (simp add: V_Binomial_1 del: mult_1_right)
qed (use assms in \<open>simp_all add: weight_domain_def V_mu_def V_constant_def V_mu_squared_def
      V_call_def np_power_def\<close>)

lemma weights_from_parts:
  assumes "link_deriv l mu = Some d" "d \<noteq> 0" "V_call (variance self) mu = Some v" "0 < v"
      and "getlink self = Some l"
  shows "\<exists>w. weights self mu = Some w \<and> 0 < w"
proof -
  have "0 < d ^ 2 * v" using assms(2,4) by simp
  then show ?thesis
    using assms by (simp add: weights_def np_div_def)
qed


text \<open>
  Claim C6, as the code has it. For a family constructed with one of its accepted
  links, the IRLS weight \<open>1 / (link.deriv(mu)^2 * variance(mu))\<close> is finite and positive
  at every positive mean of the Poisson, QuasiPoisson and Gamma families, at every mean
  of the Binomial family, and at every mean of the Gaussian family, the mean zero
  excepted under the inverse link; the density of a CDF link's distribution is assumed
  positive.
\<close>

theorem irls_weight_positive:
  assumes "init S a k c = Inr self"
      and "\<forall>d. attrs (new_link S a c) = DbnAttrs d \<longrightarrow> (\<forall>x. 0 < pdf d x)"
      and "weight_domain k c mu"
  shows "\<exists>w. weights self mu = Some w \<and> 0 < w"
proof -
  note I = init_Inr [OF assms(1)]
  have acc: "c \<in> set (links k)"
    using I(2) by (rule accepted_classes)
  have g: "getlink self = Some (new_link S a c)"
    by (simp add: I(1) getlink_def)
  have var: "variance self = variance (new_family k)"
    by (simp add: I(1))
  obtain v where v: "V_call (variance self) mu = Some v" "0 < v"
    using variance_pos [OF assms(3)] var by auto
  have "\<exists>d. link_deriv (new_link S a c) mu = Some d \<and> d \<noteq> 0"
  proof -
    consider "c = L_log" | "c = L_identity" | "c = L_sqrt" "0 < mu"
      | "c = L_inverse_power" "mu \<noteq> 0" | "c = L_logit" | "c = L_cloglog"
      | "c = L_probit \<or> c = L_cauchy"
      using acc assms(3) by (cases k) (auto simp: weight_domain_def)
    then show ?thesis
    proof cases
      case 1 then show ?thesis by (simp add: deriv_log)
    next
      case 2 then show ?thesis by (simp add: deriv_identity)
    next
      case 3 then show ?thesis by (simp add: deriv_sqrt)
    next
      case 4 then show ?thesis by (simp add: deriv_inverse_power)
    next
      case 5 then show ?thesis by (simp add: deriv_logit)
    next
      case 6 then show ?thesis by (simp add: deriv_cloglog)
    next
      case 7 then show ?thesis using assms(2) by (rule deriv_cdf)
    qed
  qed
  then obtain d where d: "link_deriv (new_link S a c) mu = Some d" "d \<noteq> 0"
    by blast
  show ?thesis
    using d v g by (rule weights_from_parts)
qed


theorem irls_weight_positive_witness:
  "init \<lparr>norm_dbn = std_cauchy, cauchy_dbn = std_cauchy\<rparr> ''7f00'' Binomial L_cauchy =
     Inr ((new_family Binomial)\<lparr>p_link :=
            Some \<lparr>cls = L_cauchy, attrs = DbnAttrs std_cauchy, addr = ''7f00''\<rparr>\<rparr>)
   \<and> weight_domain Binomial L_cauchy (1 / 2)
   \<and> (\<exists>w. weights ((new_family Binomial)\<lparr>p_link :=
            Some \<lparr>cls = L_cauchy, attrs = DbnAttrs std_cauchy, addr = ''7f00''\<rparr>\<rparr>) (1 / 2) = Some w
          \<and> 0 < w)"
proof -
  let ?S = "\<lparr>norm_dbn = std_cauchy, cauchy_dbn = std_cauchy\<rparr>"
  let ?F = "(new_family Binomial)\<lparr>p_link :=
            Some \<lparr>cls = L_cauchy, attrs = DbnAttrs std_cauchy, addr = ''7f00''\<rparr>\<rparr>"
  have i: "init ?S ''7f00'' Binomial L_cauchy = Inr ?F"
    by (simp add: init_def setlink_def Let_def py_max_def new_link_def isinstance_def mro_cases)
  have p: "\<forall>d. attrs (new_link ?S ''7f00'' L_cauchy) = DbnAttrs d \<longrightarrow> (\<forall>x. 0 < pdf d x)"
    using std_cauchy_regular by (simp add: new_link_def dbn_regular_def)
  have w: "weight_domain Binomial L_cauchy (1 / 2)"
    by (simp add: weight_domain_def)
  show ?thesis
    using irls_weight_positive [OF i p w] i w by simp
qed

text \<open>
  The claim as the specification words it fails at the boundary mean it names: for the
  Poisson family with its default log link the variance at the mean 0 is 0, and the
  weight is the quotient of 1 by 0.
\<close>

theorem irls_weight_Poisson_zero_counterexample:
  "weights ((new_family Poisson)\<lparr>p_link := Some \<lparr>cls = L_log, attrs = NoAttrs, addr = ''7f00''\<rparr>\<rparr>) 0
     = None"
proof -
  have i: "isinstance \<lparr>cls = L_log, attrs = NoAttrs, addr = ''7f00''\<rparr> L_Log"
    by (simp add: isinstance_def mro_cases)
  have c: "Log_clean 0 = FLOAT_EPS"
    using FLOAT_EPS_pos by (simp add: Log_clean_def np_clip_inf_def max_def)
  show ?thesis
    using FLOAT_EPS_pos
    by (simp add: weights_def getlink_def dispatch_Log [OF i] Log_deriv_def Let_def c np_div_def
          V_mu_def V_call_def np_power_def)
qed


end
